theory Spec2Isabelle
  imports Complex_Main "HOL-Library.Word" "HOL-Library.Multiset"
begin

unbundle bit_operations_syntax

section \<open>LingoBlanks: the lesson session engine of \<open>index.tsx\<close>\<close>

text \<open>
  The development embeds the functions of \<open>src/index.tsx\<close>: the WAV encoder \<open>pcmToWav\<close>,
  the Fisher-Yates \<open>shuffleArray\<close>, and the handlers of the \<open>App\<close> component
  (\<open>generateLesson\<close>, \<open>handleListen\<close>, \<open>handleAnswerChange\<close>, \<open>handleCheckAnswers\<close>,
  \<open>handleNextTopic\<close>, \<open>renderArticle\<close>) over an explicit record of the component's state.
\<close>

section \<open>The WAV encoder\<close>

text \<open>
  A \<open>Uint8Array\<close> and the 44 bytes behind the \<open>DataView\<close> are lists of bytes. The
  arguments of \<open>pcmToWav\<close> are JavaScript numbers; the model takes integer values, and
  computes \<open>blockAlign\<close> and \<open>byteRate\<close> as rationals, since \<open>/\<close> does not round.
  (Doubles compute these products and the division by 8 exactly as long as the results
  stay below \<open>2^53\<close>.)
\<close>

type_synonym byte = "8 word"

datatype js_error = RangeError | TypeError string | Error string

text \<open>\<open>ToUint32\<close> and \<open>ToUint16\<close> of a finite number: truncate towards zero, then wrap.\<close>

definition js_trunc :: "rat \<Rightarrow> int" where
  "js_trunc x = (if x < 0 then - \<lfloor>- x\<rfloor> else \<lfloor>x\<rfloor>)"

definition to_uint32 :: "rat \<Rightarrow> 32 word" where
  "to_uint32 x = word_of_int (js_trunc x)"

definition to_uint16 :: "rat \<Rightarrow> 16 word" where
  "to_uint16 x = word_of_int (js_trunc x)"

definition to_uint8 :: "rat \<Rightarrow> byte" where
  "to_uint8 x = word_of_int (js_trunc x)"

text \<open>The setters of \<open>DataView\<close> raise a \<open>RangeError\<close> outside the buffer.\<close>

definition setUint8 :: "byte list \<Rightarrow> nat \<Rightarrow> rat \<Rightarrow> js_error + byte list" where
  "setUint8 view off v =
     (if off + 1 \<le> length view then Inr (view[off := to_uint8 v]) else Inl RangeError)"

definition setUint16 :: "byte list \<Rightarrow> nat \<Rightarrow> rat \<Rightarrow> bool \<Rightarrow> js_error + byte list" where
  "setUint16 view off v littleEndian =
     (let w = to_uint16 v; b0 = ucast w; b1 = ucast (drop_bit 8 w) in
      if off + 2 \<le> length view
      then Inr (if littleEndian then view[off := b0, off + 1 := b1]
                else view[off := b1, off + 1 := b0])
      else Inl RangeError)"

definition setUint32 :: "byte list \<Rightarrow> nat \<Rightarrow> rat \<Rightarrow> bool \<Rightarrow> js_error + byte list" where
  "setUint32 view off v littleEndian =
     (let w = to_uint32 v;
          b0 = ucast w; b1 = ucast (drop_bit 8 w);
          b2 = ucast (drop_bit 16 w); b3 = ucast (drop_bit 24 w) in
      if off + 4 \<le> length view
      then Inr (if littleEndian
                then view[off := b0, off + 1 := b1, off + 2 := b2, off + 3 := b3]
                else view[off := b3, off + 1 := b2, off + 2 := b1, off + 3 := b0])
      else Inl RangeError)"

text \<open>Sequencing of steps that may throw.\<close>

definition bind_err :: "'e + 'a \<Rightarrow> ('a \<Rightarrow> 'e + 'b) \<Rightarrow> 'e + 'b" where
  "bind_err m f = (case m of Inl e \<Rightarrow> Inl e | Inr x \<Rightarrow> f x)"

text \<open>The inner \<open>writeString\<close>: \<open>for (i = 0; i < string.length; i++) setUint8(offset + i, charCodeAt(i))\<close>.\<close>

fun writeString_from :: "nat \<Rightarrow> byte list \<Rightarrow> nat \<Rightarrow> string \<Rightarrow> js_error + byte list" where
  "writeString_from i view offset [] = Inr view"
| "writeString_from i view offset (c # cs) =
     bind_err (setUint8 view (offset + i) (of_nat (of_char c)))
       (\<lambda>view'. writeString_from (Suc i) view' offset cs)"

definition writeString :: "byte list \<Rightarrow> nat \<Rightarrow> string \<Rightarrow> js_error + byte list" where
  "writeString view offset s = writeString_from 0 view offset s"

text \<open>\<open>TypedArray.prototype.set(source, offset)\<close>: a \<open>RangeError\<close> when the source does not fit.\<close>

definition typed_set :: "byte list \<Rightarrow> byte list \<Rightarrow> nat \<Rightarrow> js_error + byte list" where
  "typed_set target source off =
     (if off + length source \<le> length target
      then Inr (take off target @ source @ drop (off + length source) target)
      else Inl RangeError)"

definition pcmToWav :: "byte list \<Rightarrow> int \<Rightarrow> int \<Rightarrow> int \<Rightarrow> js_error + byte list" where
  "pcmToWav pcmData sampleRate numChannels bitsPerSample =
     (let header = replicate 44 (0 :: byte);
          dataSize = length pcmData;
          blockAlign = (of_int numChannels * of_int bitsPerSample) / (8 :: rat);
          byteRate = of_int sampleRate * blockAlign
      in
      bind_err (writeString header 0 ''RIFF'') (\<lambda>v.
      bind_err (setUint32 v 4 (36 + of_nat dataSize) True) (\<lambda>v.
      bind_err (writeString v 8 ''WAVE'') (\<lambda>v.
      bind_err (writeString v 12 ''fmt '') (\<lambda>v.
      bind_err (setUint32 v 16 16 True) (\<lambda>v.
      bind_err (setUint16 v 20 1 True) (\<lambda>v.
      bind_err (setUint16 v 22 (of_int numChannels) True) (\<lambda>v.
      bind_err (setUint32 v 24 (of_int sampleRate) True) (\<lambda>v.
      bind_err (setUint32 v 28 byteRate True) (\<lambda>v.
      bind_err (setUint16 v 32 blockAlign True) (\<lambda>v.
      bind_err (setUint16 v 34 (of_int bitsPerSample) True) (\<lambda>v.
      bind_err (writeString v 36 ''data'') (\<lambda>v.
      bind_err (setUint32 v 40 (of_nat dataSize) True) (\<lambda>v.
      bind_err (typed_set (replicate (44 + length pcmData) 0) v 0) (\<lambda>wavBytes.
      typed_set wavBytes pcmData 44)))))))))))))))"

text \<open>Reading a field back: the little-endian value of a run of bytes.\<close>

fun le_value :: "byte list \<Rightarrow> nat" where
  "le_value [] = 0"
| "le_value (b # bs) = unat b + 256 * le_value bs"

definition bytes_at :: "byte list \<Rightarrow> nat \<Rightarrow> nat \<Rightarrow> byte list" where
  "bytes_at bs off n = take n (drop off bs)"

definition ascii :: "string \<Rightarrow> byte list" where
  "ascii s = map (\<lambda>c. of_nat (of_char c)) s"

text \<open>The bytes a little-endian setter stores, and the header the encoder is shown to build.\<close>

definition le16 :: "16 word \<Rightarrow> byte list" where
  "le16 w = [ucast w, ucast (drop_bit 8 w)]"

definition le32 :: "32 word \<Rightarrow> byte list" where
  "le32 w = [ucast w, ucast (drop_bit 8 w), ucast (drop_bit 16 w), ucast (drop_bit 24 w)]"

definition write_at :: "'a list \<Rightarrow> nat \<Rightarrow> 'a list \<Rightarrow> 'a list" where
  "write_at view off new = take off view @ new @ drop (off + length new) view"

definition wav_header :: "nat \<Rightarrow> int \<Rightarrow> int \<Rightarrow> int \<Rightarrow> byte list" where
  "wav_header dataSize sampleRate numChannels bitsPerSample =
     ascii ''RIFF'' @ le32 (to_uint32 (36 + of_nat dataSize)) @ ascii ''WAVE'' @
     ascii ''fmt '' @ le32 (to_uint32 16) @ le16 (to_uint16 1) @
     le16 (to_uint16 (of_int numChannels)) @ le32 (to_uint32 (of_int sampleRate)) @
     le32 (to_uint32 (of_int sampleRate * (of_int numChannels * of_int bitsPerSample / 8))) @
     le16 (to_uint16 (of_int numChannels * of_int bitsPerSample / 8)) @
     le16 (to_uint16 (of_int bitsPerSample)) @
     ascii ''data'' @ le32 (to_uint32 (of_nat dataSize))"

section \<open>The word bank randomizer\<close>

text \<open>
  \<open>shuffleArray\<close> copies its argument into a fresh array and swaps inside the copy.
  Arrays live in a store (a list of arrays, an address is a position) so that the copy
  and the caller's array are different objects. \<open>Math.random()\<close> is the function \<open>rnd\<close>:
  \<open>rnd k\<close> is what the \<open>k\<close>-th call returns, a number in \<open>[0, 1)\<close>.
\<close>

type_synonym 'a store = "'a list list"

text \<open>\<open>[shuffled[i], shuffled[j]] = [shuffled[j], shuffled[i]]\<close>: both reads, then both writes.\<close>

definition swap_elems :: "'a list \<Rightarrow> nat \<Rightarrow> nat \<Rightarrow> 'a list" where
  "swap_elems xs i j = (let a = xs ! j; b = xs ! i in xs[i := a, j := b])"

text \<open>
  The loop \<open>for (let i = shuffled.length - 1; i > 0; i--)\<close>, on the array at address \<open>b\<close>
  of the store; \<open>k\<close> counts the calls of \<open>Math.random\<close> made so far.
\<close>

fun shuffle_loop :: "(nat \<Rightarrow> rat) \<Rightarrow> nat \<Rightarrow> nat \<Rightarrow> nat \<Rightarrow> 'a store \<Rightarrow> 'a store" where
  "shuffle_loop rnd k b 0 st = st"
| "shuffle_loop rnd k b (Suc n) st =
     (let i = Suc n;
          j = nat \<lfloor>rnd k * of_nat (i + 1)\<rfloor>
      in shuffle_loop rnd (Suc k) b n (st[b := swap_elems (st ! b) i j]))"

text \<open>The result is the new store and the address of the shuffled copy.\<close>

definition shuffleArray :: "(nat \<Rightarrow> rat) \<Rightarrow> 'a store \<Rightarrow> nat \<Rightarrow> 'a store \<times> nat" where
  "shuffleArray rnd st array =
     (let shuffled = length st;
          st1 = st @ [st ! array]
      in (shuffle_loop rnd 0 shuffled (length (st1 ! shuffled) - 1) st1, shuffled))"

text \<open>The value \<open>shuffleArray\<close> returns when called on an array holding \<open>xs\<close>.\<close>

definition shuffled_copy :: "(nat \<Rightarrow> rat) \<Rightarrow> 'a list \<Rightarrow> 'a list" where
  "shuffled_copy rnd xs = (case shuffleArray rnd [xs] 0 of (st, b) \<Rightarrow> st ! b)"

definition unit_interval :: "(nat \<Rightarrow> rat) \<Rightarrow> bool" where
  "unit_interval rnd \<longleftrightarrow> (\<forall>k. 0 \<le> rnd k \<and> rnd k < 1)"

section \<open>Strings\<close>

text \<open>
  A JavaScript string is a list of UTF-16 code units. \<open>str\<close> writes a literal of the
  program: each character of the (ASCII) literal becomes its code unit.
\<close>

type_synonym u16 = "16 word"

type_synonym jstring = "u16 list"

definition str :: "string \<Rightarrow> jstring" where
  "str s = map (\<lambda>c. of_nat (of_char c)) s"

text \<open>
  \<open>trim\<close> removes the code units of \<open>WhiteSpace\<close> and \<open>LineTerminator\<close> at both ends:
  \<open>U+0009\<close>-\<open>U+000D\<close>, \<open>U+0020\<close>, \<open>U+00A0\<close>, \<open>U+1680\<close>, \<open>U+2000\<close>-\<open>U+200A\<close>, \<open>U+2028\<close>,
  \<open>U+2029\<close>, \<open>U+202F\<close>, \<open>U+205F\<close>, \<open>U+3000\<close> and \<open>U+FEFF\<close>.
\<close>

definition is_white_space :: "u16 \<Rightarrow> bool" where
  "is_white_space c \<longleftrightarrow>
     (let n = unat c in
      (9 \<le> n \<and> n \<le> 13) \<or> n = 32 \<or> n = 160 \<or> n = 5760 \<or> (8192 \<le> n \<and> n \<le> 8202)
      \<or> n = 8232 \<or> n = 8233 \<or> n = 8239 \<or> n = 8287 \<or> n = 12288 \<or> n = 65279)"

definition trim :: "jstring \<Rightarrow> jstring" where
  "trim s = rev (dropWhile is_white_space (rev (dropWhile is_white_space s)))"

definition startsWith :: "jstring \<Rightarrow> jstring \<Rightarrow> bool" where
  "startsWith s p \<longleftrightarrow> take (length p) s = p"

definition endsWith :: "jstring \<Rightarrow> jstring \<Rightarrow> bool" where
  "endsWith s p \<longleftrightarrow> length p \<le> length s \<and> drop (length s - length p) s = p"















section \<open>The state of the \<open>App\<close> component\<close>

text \<open>
  \<open>Lesson\<close> is the object \<open>JSON.parse\<close> returns: \<open>targetWords\<close> and \<open>nextTopicSuggestion\<close>
  may be missing from it (\<open>None\<close>), which is what the code tests for.
\<close>

record Lesson =
  title :: jstring
  languageCode :: jstring
  article :: jstring
  targetWords :: "jstring list option"
  nextTopicSuggestion :: "jstring option"

text \<open>
  An element of a JavaScript array: a value, \<open>undefined\<close>, or a hole (an index below
  \<open>length\<close> that was never written). \<open>map\<close> skips holes; spreading turns them into
  \<open>undefined\<close>.
\<close>

datatype 'a slot = Val 'a | Undefined | Hole

datatype audio_context_state = Running | Closed

datatype audio_buffer = AudioBuffer "byte list"

datatype source_node = BufferSource audio_buffer

text \<open>What the component asks of the outside world, in the order it does so.\<close>

datatype request =
    GenerateContent jstring
  | GenerateImages jstring
  | GenerateSpeech jstring jstring
  | StopSource source_node
  | StartSource source_node

record app_state =
  language :: jstring
  topic :: jstring
  difficulty :: jstring
  isLoading :: bool
  error :: "jstring option"
  lesson :: "Lesson option"
  lessonImage :: "jstring option"
  userAnswers :: "jstring slot list"
  isCorrect :: "bool slot list"
  showResults :: bool
  shuffledWords :: "jstring list"
  isAudioLoading :: bool
  isAudioPlaying :: bool
  nextTopicCooldown :: nat
  audioContextRef :: "audio_context_state option"
  audioSourceRef :: "source_node option"
  issued :: "request list"

text \<open>The \<open>useState\<close> initialisers; the arguments are what \<open>localStorage.getItem\<close> returns.\<close>

definition or_default :: "jstring option \<Rightarrow> jstring \<Rightarrow> jstring" where
  "or_default stored d = (case stored of None \<Rightarrow> d | Some s \<Rightarrow> (if s = [] then d else s))"

definition initial_state :: "jstring option \<Rightarrow> jstring option \<Rightarrow> jstring option \<Rightarrow> app_state" where
  "initial_state lastLanguage lastTopic lastDifficulty =
     \<lparr> language = or_default lastLanguage (str ''Spanish''),
       topic = or_default lastTopic (str ''ordering food at a restaurant''),
       difficulty = or_default lastDifficulty (str ''normal''),
       isLoading = False, error = None, lesson = None, lessonImage = None,
       userAnswers = [], isCorrect = [], showResults = False, shuffledWords = [],
       isAudioLoading = False, isAudioPlaying = False, nextTopicCooldown = 0,
       audioContextRef = None, audioSourceRef = None, issued = [] \<rparr>"

section \<open>Lesson generation\<close>

text \<open>
  \<open>difficultyMap[difficulty]\<close>: the three entries of the object literal, and for any
  other key what the object inherits (\<open>constructor\<close>, \<open>toString\<close>, ...). \<open>inherited\<close> gives
  the text an inherited property prints as in the template string, \<open>None\<close> when the
  object has no such property, which prints as \<open>undefined\<close>.
\<close>

definition difficultyMap :: "(jstring \<Rightarrow> jstring option) \<Rightarrow> jstring \<Rightarrow> jstring option" where
  "difficultyMap inherited d =
     (if d = (str ''easy'') then Some (str ''Use short, simple sentences with common vocabulary and basic grammar.'')
      else if d = (str ''normal'') then Some (str ''Use standard sentences with a mix of common and some less common vocabulary.'')
      else if d = (str ''hard'') then Some (str ''Use longer, more complex sentences with advanced vocabulary and grammar.'')
      else inherited d)"

definition lessonPrompt :: "(jstring \<Rightarrow> jstring option) \<Rightarrow> jstring \<Rightarrow> jstring \<Rightarrow> jstring \<Rightarrow> jstring" where
  "lessonPrompt inherited lang currentTopic diff =
     (str ''Create a language lesson for a beginner learning '') @ lang @
     (str '' on the topic of \"'') @ currentTopic @ (str ''\". The difficulty is '') @ diff @ (str ''. '') @
     (case difficultyMap inherited diff of None \<Rightarrow> (str ''undefined'') | Some s \<Rightarrow> s) @
     (str '' Provide a title, the IETF language code for '') @ lang @
     (str '', a short article (3-4 sentences) with exactly 5 words replaced by \"{{word}}\" for a fill-in-the-blank exercise, a JSON array of those 5 exact string words for the \"targetWords\" field (the words should be the actual words, not placeholders), and a suggestion for a follow-up lesson topic.'')"

definition imagePrompt :: "jstring \<Rightarrow> jstring" where
  "imagePrompt lessonTitle =
     (str ''A vibrant, minimalist, educational illustration for a language lesson titled \"'') @
     lessonTitle @ (str ''\".'')"

text \<open>
  The outcomes of the two awaited calls of \<open>generateLesson\<close>: the parsed answer of the
  content request (or the message of the error thrown by the request or by
  \<open>JSON.parse\<close>), the image bytes in base64 (or the message of the error thrown by the
  request or by reading \<open>generatedImages[0].image.imageBytes\<close>), \<open>Math.random\<close>, and
  the text of the properties an object literal inherits.
\<close>

record generate_env =
  content_response :: "jstring + Lesson"
  image_response :: "jstring + jstring"
  random :: "nat \<Rightarrow> rat"
  inherited_property :: "jstring \<Rightarrow> jstring option"

text \<open>The check after \<open>JSON.parse\<close>: \<open>!lessonData.targetWords || lessonData.targetWords.length === 0\<close>.\<close>

definition validate_lesson :: "Lesson \<Rightarrow> jstring + Lesson" where
  "validate_lesson lessonData =
     (case targetWords lessonData of
        None \<Rightarrow> Inl (str ''API returned invalid lesson data (missing target words).'')
      | Some ws \<Rightarrow>
          if length ws = 0 then Inl (str ''API returned invalid lesson data (missing target words).'')
          else Inr lessonData)"

text \<open>\<open>lessonData.targetWords\<close> once the check has passed (the field is present then).\<close>

definition words_of :: "Lesson \<Rightarrow> jstring list" where
  "words_of l = (case targetWords l of None \<Rightarrow> [] | Some ws \<Rightarrow> ws)"

text \<open>The \<open>catch\<close> block and the \<open>finally\<close> block.\<close>

definition generate_catch :: "jstring \<Rightarrow> app_state \<Rightarrow> app_state" where
  "generate_catch message st =
     st\<lparr>error := Some ((str ''An error occurred: '') @ message @ (str ''. Please try again.''))\<rparr>"

definition generate_finally :: "app_state \<Rightarrow> app_state" where
  "generate_finally st = st\<lparr>isLoading := False, nextTopicCooldown := 5\<rparr>"

definition generateLesson :: "jstring \<Rightarrow> generate_env \<Rightarrow> app_state \<Rightarrow> app_state" where
  "generateLesson currentTopic env st =
     (let st1 = st\<lparr>isLoading := True, error := None, lesson := None, lessonImage := None,
                    showResults := False\<rparr>;
          st2 = st1\<lparr>issued := issued st1 @
                    [GenerateContent
                       (lessonPrompt (inherited_property env) (language st) currentTopic
                          (difficulty st))]\<rparr>
      in
      case content_response env of
        Inl message \<Rightarrow> generate_finally (generate_catch message st2)
      | Inr parsed \<Rightarrow>
          (case validate_lesson parsed of
             Inl message \<Rightarrow> generate_finally (generate_catch message st2)
           | Inr lessonData \<Rightarrow>
               (let ws = words_of lessonData;
                    st3 = st2\<lparr>lesson := Some lessonData,
                              userAnswers := replicate (length ws) (Val []),
                              isCorrect := [],
                              shuffledWords := shuffled_copy (random env) ws\<rparr>;
                    st4 = st3\<lparr>issued := issued st3 @
                              [GenerateImages (imagePrompt (title lessonData))]\<rparr>
                in
                case image_response env of
                  Inl message \<Rightarrow> generate_finally (generate_catch message st4)
                | Inr base64ImageBytes \<Rightarrow>
                    generate_finally
                      (st4\<lparr>lessonImage := Some ((str ''data:image/jpeg;base64,'') @ base64ImageBytes)\<rparr>))))"

section \<open>Audio playback\<close>

text \<open>
  What the browser and the speech service do during one run of \<open>handleListen\<close>. A
  call that throws is \<open>Some message\<close> or \<open>Inl message\<close>. \<open>speech_response\<close> is
  \<open>response.candidates?.[0]?.content?.parts?.[0]?.inlineData?.data\<close>, \<open>None\<close> when any link
  of the chain is missing; \<open>decode_base64\<close> is \<open>Uint8Array.from(atob(...), ...)\<close>.
\<close>

record listen_env =
  stop_throws :: "jstring option"
  speech_response :: "jstring + jstring option"
  decode_base64 :: "jstring \<Rightarrow> jstring + byte list"
  new_context_throws :: "jstring option"
  decodeAudioData :: "byte list \<Rightarrow> jstring + audio_buffer"
  start_throws :: "jstring option"

definition js_error_message :: "js_error \<Rightarrow> jstring" where
  "js_error_message e =
     (case e of RangeError \<Rightarrow> (str ''offset is out of bounds'') | TypeError m \<Rightarrow> str m | Error m \<Rightarrow> str m)"

text \<open>
  The \<open>try\<close> block of \<open>handleListen\<close>: the state it leaves and, when a step throws, the
  message of the error.
\<close>

definition listen_try :: "jstring \<Rightarrow> Lesson \<Rightarrow> listen_env \<Rightarrow> app_state \<Rightarrow> app_state \<times> jstring option" where
  "listen_try textToListen l env st =
     (let st1 = (case audioSourceRef st of
                   None \<Rightarrow> st
                 | Some src \<Rightarrow> st\<lparr>issued := issued st @ [StopSource src]\<rparr>)
      in
      if audioSourceRef st \<noteq> None \<and> stop_throws env \<noteq> None then (st1, stop_throws env)
      else
        let st2 = st1\<lparr>issued := issued st1 @ [GenerateSpeech textToListen (languageCode l)]\<rparr> in
        case speech_response env of
          Inl message \<Rightarrow> (st2, Some message)
        | Inr audioDataB64 \<Rightarrow>
            (case audioDataB64 of
               None \<Rightarrow> (st2, Some (str ''No audio data returned from API.''))
             | Some b64 \<Rightarrow>
                 if b64 = [] then (st2, Some (str ''No audio data returned from API.''))
                 else
                   (case decode_base64 env b64 of
                      Inl message \<Rightarrow> (st2, Some message)
                    | Inr pcmData \<Rightarrow>
                        (case pcmToWav pcmData 24000 1 16 of
                           Inl e \<Rightarrow> (st2, Some (js_error_message e))
                         | Inr wavBuffer \<Rightarrow>
                             if (audioContextRef st2 = None \<or> audioContextRef st2 = Some Closed)
                                \<and> new_context_throws env \<noteq> None
                             then (st2, new_context_throws env)
                             else
                               let st3 = (if audioContextRef st2 = None \<or> audioContextRef st2 = Some Closed
                                          then st2\<lparr>audioContextRef := Some Running\<rparr> else st2) in
                               (case decodeAudioData env wavBuffer of
                                  Inl message \<Rightarrow> (st3, Some message)
                                | Inr audioBuffer \<Rightarrow>
                                    let source = BufferSource audioBuffer in
                                    if start_throws env \<noteq> None then (st3, start_throws env)
                                    else
                                      (st3\<lparr>issued := issued st3 @ [StartSource source],
                                           audioSourceRef := Some source,
                                           isAudioPlaying := True\<rparr>, None))))))"

definition handleListen :: "jstring \<Rightarrow> listen_env \<Rightarrow> app_state \<Rightarrow> app_state" where
  "handleListen textToListen env st =
     (if isAudioLoading st \<or> isAudioPlaying st then st
      else case lesson st of
        None \<Rightarrow> st
      | Some l \<Rightarrow>
          (let st1 = st\<lparr>isAudioLoading := True, error := None\<rparr> in
           case listen_try textToListen l env st1 of
             (st2, None) \<Rightarrow> st2\<lparr>isAudioLoading := False\<rparr>
           | (st2, Some message) \<Rightarrow>
               st2\<lparr>error := Some ((str ''Failed to play audio: '') @ message),
                    isAudioLoading := False\<rparr>))"

text \<open>The \<open>onended\<close> callback of the source.\<close>

definition source_ended :: "app_state \<Rightarrow> app_state" where
  "source_ended st = st\<lparr>isAudioPlaying := False, audioSourceRef := None\<rparr>"

text \<open>
  The run fails when one of its steps throws: stopping the previous source, the
  request, the missing payload, the base64 decoding, the creation of the audio context,
  the decoding of the container, or the start of the source.
\<close>

definition listen_fails :: "listen_env \<Rightarrow> app_state \<Rightarrow> bool" where
  "listen_fails env st \<longleftrightarrow>
     (audioSourceRef st \<noteq> None \<and> stop_throws env \<noteq> None)
     \<or> (case speech_response env of
           Inl message \<Rightarrow> True
         | Inr None \<Rightarrow> True
         | Inr (Some b64) \<Rightarrow>
             b64 = [] \<or>
             (case decode_base64 env b64 of
                Inl message \<Rightarrow> True
              | Inr pcmData \<Rightarrow>
                  (case pcmToWav pcmData 24000 1 16 of
                     Inl e \<Rightarrow> True
                   | Inr wavBuffer \<Rightarrow>
                       ((audioContextRef st = None \<or> audioContextRef st = Some Closed)
                          \<and> new_context_throws env \<noteq> None)
                       \<or> (case decodeAudioData env wavBuffer of
                             Inl message \<Rightarrow> True
                           | Inr audioBuffer \<Rightarrow> start_throws env \<noteq> None))))"

section \<open>The exercise\<close>

text \<open>
  Reading \<open>xs[i]\<close>: \<open>None\<close> is \<open>undefined\<close>, for a hole, an \<open>undefined\<close> element and an
  index past the end alike. Writing \<open>xs[i] = v\<close> past the end extends the array with holes.
\<close>

definition js_get :: "'a slot list \<Rightarrow> nat \<Rightarrow> 'a option" where
  "js_get xs i =
     (if i < length xs then (case xs ! i of Val v \<Rightarrow> Some v | Undefined \<Rightarrow> None | Hole \<Rightarrow> None)
      else None)"

definition js_set :: "'a slot list \<Rightarrow> nat \<Rightarrow> 'a \<Rightarrow> 'a slot list" where
  "js_set xs i v =
     (if i < length xs then xs[i := Val v]
      else xs @ replicate (i - length xs) Hole @ [Val v])"

definition spread :: "'a slot list \<Rightarrow> 'a slot list" where
  "spread xs = map (\<lambda>x. case x of Hole \<Rightarrow> Undefined | Undefined \<Rightarrow> Undefined | Val v \<Rightarrow> Val v) xs"

definition handleAnswerChange :: "nat \<Rightarrow> jstring \<Rightarrow> app_state \<Rightarrow> app_state" where
  "handleAnswerChange index v st =
     (if showResults st then st
      else st\<lparr>userAnswers := js_set (spread (userAnswers st)) index v\<rparr>)"




text \<open>\<open>lesson?.nextTopicSuggestion\<close> is truthy when it is a non-empty string.\<close>

definition handleNextTopic :: "generate_env \<Rightarrow> app_state \<Rightarrow> app_state" where
  "handleNextTopic env st =
     (case lesson st of
        None \<Rightarrow> st
      | Some l \<Rightarrow>
          (case nextTopicSuggestion l of
             None \<Rightarrow> st
           | Some suggestion \<Rightarrow>
               if suggestion \<noteq> [] \<and> nextTopicCooldown st = 0
               then generateLesson suggestion env (st\<lparr>topic := suggestion\<rparr>)
               else st))"

text \<open>
  The button that calls \<open>handleNextTopic\<close>: the JSX renders it inside \<open>{lesson && ...}\<close>,
  in the branch where \<open>showResults\<close> holds, with \<open>disabled={nextTopicCooldown > 0}\<close>.
  A click on a disabled or absent button calls nothing.
\<close>

definition next_topic_button_rendered :: "app_state \<Rightarrow> bool" where
  "next_topic_button_rendered st \<longleftrightarrow> lesson st \<noteq> None \<and> showResults st"

definition next_topic_button_disabled :: "app_state \<Rightarrow> bool" where
  "next_topic_button_disabled st \<longleftrightarrow> nextTopicCooldown st > 0"

definition click_next_topic :: "generate_env \<Rightarrow> app_state \<Rightarrow> app_state" where
  "click_next_topic env st =
     (if next_topic_button_rendered st \<and> \<not> next_topic_button_disabled st
      then handleNextTopic env st else st)"

text \<open>The cooldown effect: one second after a render with a positive counter, it drops by one.\<close>

definition cooldown_tick :: "app_state \<Rightarrow> app_state" where
  "cooldown_tick st =
     (if nextTopicCooldown st > 0 then st\<lparr>nextTopicCooldown := nextTopicCooldown st - 1\<rparr> else st)"

section \<open>Rendering the article\<close>

text \<open>
  The pattern \<open>/(\{\{[^}]+\}\}|\{\{word\}\})/g\<close>, tried at the start of a string; the result
  is the length of the match. In the first alternative \<open>[^}]+\<close> takes the longest run of
  code units other than \<open>}\<close> (125), which must not be empty and must be followed by \<open>}}\<close>
  (a shorter run is followed by a character of the run, so backtracking finds nothing).
\<close>

definition match_braces :: "jstring \<Rightarrow> nat option" where
  "match_braces s =
     (if take 2 s = (str ''{{'')
      then (let body = takeWhile (\<lambda>c. c \<noteq> 125) (drop 2 s);
                rest = drop (2 + length body) s
            in if body \<noteq> [] \<and> take 2 rest = (str ''}}'') then Some (2 + length body + 2) else None)
      else None)"

definition match_word :: "jstring \<Rightarrow> nat option" where
  "match_word s = (if take 8 s = (str ''{{word}}'') then Some 8 else None)"

definition match_marker :: "jstring \<Rightarrow> nat option" where
  "match_marker s = (case match_braces s of Some n \<Rightarrow> Some n | None \<Rightarrow> match_word s)"

text \<open>
  \<open>String.prototype.split\<close> with this pattern, whose only capture group is the whole
  match: the text before each match, then the match, and at the end the remaining text.
  \<open>acc\<close> is the text read since the last match, reversed.
\<close>

function split_from :: "jstring \<Rightarrow> jstring \<Rightarrow> jstring list" where
  "split_from acc [] = [rev acc]"
| "split_from acc (c # cs) =
     (case match_marker (c # cs) of
        Some n \<Rightarrow> rev acc # take n (c # cs) # split_from [] (drop n (c # cs))
      | None \<Rightarrow> split_from (c # acc) cs)"
  by pat_completeness auto
termination
  by (relation "measure (\<lambda>(acc, s). length s)")
     (auto simp: match_marker_def match_braces_def match_word_def Let_def
           split: option.splits if_splits)

definition split_article :: "jstring \<Rightarrow> jstring list" where
  "split_article a = split_from [] a"

text \<open>
  An element of the paragraph: the \<open>input\<close> of a blank (its key, class, value, the
  index its \<open>onChange\<close> passes to \<open>handleAnswerChange\<close>, \<open>disabled\<close>, and the number in
  its label), a text fragment, or nothing.
\<close>

datatype node =
    Input (input_key: nat) (input_class: jstring) (input_value: jstring)
          (input_index: nat) (input_disabled: bool) (input_label: nat)
  | Fragment nat jstring
  | Null

definition is_placeholder :: "jstring \<Rightarrow> bool" where
  "is_placeholder part \<longleftrightarrow> startsWith part (str ''{{'') \<and> endsWith part (str ''}}'')"

definition blank_class :: "app_state \<Rightarrow> nat \<Rightarrow> jstring" where
  "blank_class st currentIndex =
     (str ''article-input '') @
     (if showResults st
      then (if js_get (isCorrect st) currentIndex = Some True then (str ''correct'') else (str ''incorrect''))
      else [])"

definition blank_value :: "app_state \<Rightarrow> nat \<Rightarrow> jstring" where
  "blank_value st currentIndex =
     (case js_get (userAnswers st) currentIndex of None \<Rightarrow> [] | Some s \<Rightarrow> s)"

text \<open>\<open>parts.map((part, i) => ...)\<close> with the counter \<open>inputIndex\<close> of the enclosing function.\<close>

fun render_parts :: "app_state \<Rightarrow> nat \<Rightarrow> nat \<Rightarrow> jstring list \<Rightarrow> node list" where
  "render_parts st i inputIndex [] = []"
| "render_parts st i inputIndex (part # parts) =
     (if is_placeholder part
      then Input i (blank_class st inputIndex) (blank_value st inputIndex) inputIndex
             (showResults st) (inputIndex + 1)
           # render_parts st (Suc i) (Suc inputIndex) parts
      else (if part \<noteq> [] then Fragment i part else Null)
           # render_parts st (Suc i) inputIndex parts)"

definition renderArticle :: "app_state \<Rightarrow> node list option" where
  "renderArticle st =
     (case lesson st of
        None \<Rightarrow> None
      | Some l \<Rightarrow> Some (render_parts st 0 0 (split_article (article l))))"


fun markers :: "jstring list \<Rightarrow> jstring list" where
  "markers [] = []"
| "markers [t] = []"
| "markers (t # m # parts) = m # markers parts"

definition placeholders :: "jstring \<Rightarrow> jstring list" where
  "placeholders a = markers (split_article a)"

text \<open>
  The positions, in document order, of the parts that \<open>renderArticle\<close> takes for a
  placeholder: those that pass its test \<open>startsWith('{{') && endsWith('}}')\<close>.
\<close>

definition blank_positions :: "jstring list \<Rightarrow> nat list" where
  "blank_positions parts = filter (\<lambda>i. is_placeholder (parts ! i)) [0..<length parts]"


section \<open>Sample inputs\<close>

text \<open>
  A lesson with one blank, the answers of the services that produce it, and the states
  around it; a lesson whose article has two blanks for one target word; and a lesson
  with three blanks whose markers carry different texts.
\<close>

definition bread_lesson :: Lesson where
  "bread_lesson =
     \<lparr> title = (str ''Food''), languageCode = (str ''en-US''), article = (str ''I eat {{word}} every day.''),
       targetWords = Some [(str ''bread'')], nextTopicSuggestion = Some (str ''drinks'') \<rparr>"

definition uneven_lesson :: Lesson where
  "uneven_lesson =
     \<lparr> title = (str ''Food''), languageCode = (str ''en-US''), article = (str ''I eat {{word}} and {{word}}.''),
       targetWords = Some [(str ''bread'')], nextTopicSuggestion = Some (str ''drinks'') \<rparr>"


definition bread_env :: generate_env where
  "bread_env =
     \<lparr> content_response = Inr bread_lesson, image_response = Inr (str ''AAAA''),
       random = (\<lambda>k. 0),
       inherited_property = (\<lambda>k. None) \<rparr>"

definition no_image_env :: generate_env where
  "no_image_env =
     \<lparr> content_response = Inr bread_lesson, image_response = Inl (str ''quota exceeded''),
       random = (\<lambda>k. 0),
       inherited_property = (\<lambda>k. None) \<rparr>"

definition uneven_env :: generate_env where
  "uneven_env =
     \<lparr> content_response = Inr uneven_lesson, image_response = Inr (str ''AAAA''),
       random = (\<lambda>k. 0),
       inherited_property = (\<lambda>k. None) \<rparr>"

definition start_state :: app_state where
  "start_state = initial_state None None None"

text \<open>The state once the lesson is shown and the cooldown has run out.\<close>

definition presenting_state :: app_state where
  "presenting_state = (generateLesson (str ''food'') bread_env start_state)\<lparr>nextTopicCooldown := 0\<rparr>"

definition no_payload_env :: listen_env where
  "no_payload_env =
     \<lparr> stop_throws = None, speech_response = Inr None, decode_base64 = (\<lambda>s. Inr []),
       new_context_throws = None, decodeAudioData = (\<lambda>w. Inr (AudioBuffer w)),
       start_throws = None \<rparr>"

section \<open>Properties of the WAV encoder\<close>

lemma length_write_at: "off + length new \<le> length view \<Longrightarrow> length (write_at view off new) = length view"
  by (simp add: write_at_def)

lemma write_at_adjacent:
  "off + length a + length b \<le> length view \<Longrightarrow>
   write_at (write_at view off a) (off + length a) b = write_at view off (a @ b)"
  by (cases a) (auto simp: write_at_def min_def ac_simps)

lemma update_write_at: "off < length view \<Longrightarrow> view[off := b] = write_at view off [b]"
  by (simp add: write_at_def upd_conv_take_nth_drop)

lemma le_digits2:
  assumes "n < 65536"
  shows "n mod 256 + 256 * (n div 256 mod 256) = (n::nat)"
proof -
  have "n div 256 < 256" using assms by simp
  then show ?thesis by simp
qed

lemma le_digits4:
  assumes "n < 4294967296"
  shows "n mod 256 + (256 * (n div 256 mod 256) + (65536 * (n div 65536 mod 256)
           + 16777216 * (n div 16777216 mod 256))) = (n::nat)"
proof -
  define a where "a = n div 256"
  define b where "b = a div 256"
  define c where "c = b div 256"
  have n: "n = n mod 256 + 256 * a" by (simp add: a_def)
  have a: "a = a mod 256 + 256 * b" by (simp add: b_def)
  have b: "b = b mod 256 + 256 * c" by (simp add: c_def)
  have b': "n div 65536 = b" by (simp add: a_def b_def div_mult2_eq)
  have c': "n div 16777216 = c" by (simp add: a_def b_def c_def div_mult2_eq)
  have "c < 256" using assms unfolding c'[symmetric] by simp
  then have c: "c mod 256 = c" by simp
  have "n mod 256 + (256 * (a mod 256) + (65536 * (b mod 256) + 16777216 * c))
      = n mod 256 + 256 * (a mod 256 + 256 * (b mod 256 + 256 * c))"
    by simp
  also have "\<dots> = n" using n a b by simp
  finally have "n mod 256 + (256 * (a mod 256) + (65536 * (b mod 256) + 16777216 * c)) = n" .
  then show ?thesis by (simp add: b' c' c a_def [symmetric])
qed

lemma le_digits4_top:
  assumes "n < 4294967296"
  shows "n mod 256 + (256 * (n div 256 mod 256) + (65536 * (n div 65536 mod 256)
           + 16777216 * (n div 16777216))) = (n::nat)"
proof -
  have "n div 16777216 < 256" using assms by simp
  then have "n div 16777216 mod 256 = n div 16777216" by simp
  with le_digits4 [OF assms] show ?thesis by simp
qed

lemma setUint16_write_at:
  "off + 2 \<le> length view \<Longrightarrow> setUint16 view off v True = Inr (write_at view off (le16 (to_uint16 v)))"
  using write_at_adjacent [of off "[ucast (to_uint16 v)]" "[ucast (drop_bit 8 (to_uint16 v))]" view]
  by (simp add: setUint16_def Let_def le16_def update_write_at length_write_at)

lemma setUint32_write_at:
  "off + 4 \<le> length view \<Longrightarrow> setUint32 view off v True = Inr (write_at view off (le32 (to_uint32 v)))"
  using write_at_adjacent [of off "[ucast (to_uint32 v)]" "[ucast (drop_bit 8 (to_uint32 v))]" view]
    write_at_adjacent [of off "[ucast (to_uint32 v), ucast (drop_bit 8 (to_uint32 v))]" "[ucast (drop_bit 16 (to_uint32 v))]" view]
    write_at_adjacent [of off "[ucast (to_uint32 v), ucast (drop_bit 8 (to_uint32 v)), ucast (drop_bit 16 (to_uint32 v))]" "[ucast (drop_bit 24 (to_uint32 v))]" view]
  by (simp add: setUint32_def Let_def le32_def update_write_at length_write_at eval_nat_numeral)

lemma unat_byte_of: "unat (drop_bit k w) = unat w div 2 ^ k"
  unfolding unat_drop_bit_eq by (rule drop_bit_eq_div)

lemma unat_byte0: "unat (ucast w :: byte) = unat w mod 256"
  unfolding unsigned_ucast_eq take_bit_eq_mod by simp

lemma le_value_le16: "le_value (le16 w) = unat w"
proof -
  have "unat w < 65536" using unsigned_less [of w, where ?'a = nat] by simp
  from le_digits2 [OF this] show ?thesis
    unfolding le16_def le_value.simps unat_byte_of unat_byte0
    by simp
qed

lemma le_value_le32: "le_value (le32 w) = unat w"
proof -
  have "unat w < 4294967296" using unsigned_less [of w, where ?'a = nat] by simp
  from le_digits4 [OF this] le_digits4_top [OF this] show ?thesis
    unfolding le32_def le_value.simps unat_byte_of unat_byte0
    by simp
qed

lemma js_trunc_of_nat: "js_trunc (of_nat n) = int n"
  by (simp add: js_trunc_def)

lemma js_trunc_of_int: "js_trunc (of_int k) = k"
  by (simp add: js_trunc_def)

lemma to_uint8_char: "to_uint8 (of_nat (of_char c)) = of_nat (of_char c)"
  by (simp add: to_uint8_def js_trunc_of_nat)

lemma write_at_mid:
  "length pre = off \<Longrightarrow> length old = length new \<Longrightarrow>
   write_at (pre @ old @ post) off new = pre @ new @ post"
  by (simp add: write_at_def)

lemma setUint8_mid:
  "length pre = off \<Longrightarrow> setUint8 (pre @ x # post) off v = Inr (pre @ to_uint8 v # post)"
  by (simp add: setUint8_def list_update_append)

lemma writeString_from_mid:
  "length pre = offset + i \<Longrightarrow> length old = length s \<Longrightarrow>
   writeString_from i (pre @ old @ post) offset s = Inr (pre @ ascii s @ post)"
proof (induction s arbitrary: i pre old)
  case Nil
  then show ?case by (simp add: ascii_def)
next
  case (Cons c cs)
  then obtain x old' where old: "old = x # old'" "length old' = length cs"
    by (cases old) auto
  let ?b = "of_nat (of_char c) :: byte"
  have "writeString_from (Suc i) ((pre @ [?b]) @ old' @ post) offset cs
      = Inr ((pre @ [?b]) @ ascii cs @ post)"
    by (rule Cons.IH) (use Cons.prems old in simp_all)
  then show ?case using Cons.prems old
    by (simp add: setUint8_mid bind_err_def to_uint8_char ascii_def)
qed

lemma writeString_mid:
  "length pre = offset \<Longrightarrow> length old = length s \<Longrightarrow>
   writeString (pre @ old @ post) offset s = Inr (pre @ ascii s @ post)"
  by (simp add: writeString_def writeString_from_mid)

lemma setUint16_mid:
  "length pre = off \<Longrightarrow> length old = 2 \<Longrightarrow>
   setUint16 (pre @ old @ post) off v True = Inr (pre @ le16 (to_uint16 v) @ post)"
  by (simp add: setUint16_write_at write_at_mid le16_def)

lemma setUint32_mid:
  "length pre = off \<Longrightarrow> length old = 4 \<Longrightarrow>
   setUint32 (pre @ old @ post) off v True = Inr (pre @ le32 (to_uint32 v) @ post)"
  by (simp add: setUint32_write_at write_at_mid le32_def)

lemma typed_set_mid:
  "length pre = off \<Longrightarrow> length old = length new \<Longrightarrow>
   typed_set (pre @ old @ post) new off = Inr (pre @ new @ post)"
  by (simp add: typed_set_def)

lemma length_le16 [simp]: "length (le16 w) = 2"
  by (simp add: le16_def)

lemma length_le32 [simp]: "length (le32 w) = 4"
  by (simp add: le32_def)

lemma length_ascii [simp]: "length (ascii s) = length s"
  by (simp add: ascii_def)

lemma length_wav_header: "length (wav_header L sr nc bps) = 44"
  by (simp add: wav_header_def)

lemma pcmToWav_header:
  "pcmToWav pcm sr nc bps = Inr (wav_header (length pcm) sr nc bps @ pcm)"
proof -
  define z where "z k = replicate k (0 :: byte)" for k
  have zlen [simp]: "length (z k) = k" for k by (simp add: z_def)
  have zadd: "z (j + k) = z j @ z k" for j k by (simp add: z_def replicate_add)
  define L where "L = length pcm"
  define ba :: rat where "ba = of_int nc * of_int bps / 8"
  define p1 where "p1 = ascii ''RIFF''"
  define p2 where "p2 = p1 @ le32 (to_uint32 (36 + of_nat L))"
  define p3 where "p3 = p2 @ ascii ''WAVE''"
  define p4 where "p4 = p3 @ ascii ''fmt ''"
  define p5 where "p5 = p4 @ le32 (to_uint32 16)"
  define p6 where "p6 = p5 @ le16 (to_uint16 1)"
  define p7 where "p7 = p6 @ le16 (to_uint16 (of_int nc))"
  define p8 where "p8 = p7 @ le32 (to_uint32 (of_int sr))"
  define p9 where "p9 = p8 @ le32 (to_uint32 (of_int sr * ba))"
  define p10 where "p10 = p9 @ le16 (to_uint16 ba)"
  define p11 where "p11 = p10 @ le16 (to_uint16 (of_int bps))"
  define p12 where "p12 = p11 @ ascii ''data''"
  define p13 where "p13 = p12 @ le32 (to_uint32 (of_nat L))"
  have l1: "length p1 = 4" by (simp add: p1_def)
  have l2: "length p2 = 8" by (simp add: p2_def l1)
  have l3: "length p3 = 12" by (simp add: p3_def l2)
  have l4: "length p4 = 16" by (simp add: p4_def l3)
  have l5: "length p5 = 20" by (simp add: p5_def l4)
  have l6: "length p6 = 22" by (simp add: p6_def l5)
  have l7: "length p7 = 24" by (simp add: p7_def l6)
  have l8: "length p8 = 28" by (simp add: p8_def l7)
  have l9: "length p9 = 32" by (simp add: p9_def l8)
  have l10: "length p10 = 34" by (simp add: p10_def l9)
  have l11: "length p11 = 36" by (simp add: p11_def l10)
  have l12: "length p12 = 40" by (simp add: p12_def l11)
  have l13: "length p13 = 44" by (simp add: p13_def l12)
  have s1: "writeString (z 44) 0 ''RIFF'' = Inr (p1 @ z 40)"
    using writeString_mid [of "[]" 0 "z 4" "''RIFF''" "z 40"] zadd [of 4 40]
    by (simp add: p1_def)
  have s2: "setUint32 (p1 @ z 40) 4 (36 + of_nat L) True = Inr (p2 @ z 36)"
    using setUint32_mid [of p1 4 "z 4" "z 36"] zadd [of 4 36] by (simp add: p2_def l1)
  have s3: "writeString (p2 @ z 36) 8 ''WAVE'' = Inr (p3 @ z 32)"
    using writeString_mid [of p2 8 "z 4" "''WAVE''" "z 32"] zadd [of 4 32]
    by (simp add: p3_def l2)
  have s4: "writeString (p3 @ z 32) 12 ''fmt '' = Inr (p4 @ z 28)"
    using writeString_mid [of p3 12 "z 4" "''fmt ''" "z 28"] zadd [of 4 28]
    by (simp add: p4_def l3)
  have s5: "setUint32 (p4 @ z 28) 16 16 True = Inr (p5 @ z 24)"
    using setUint32_mid [of p4 16 "z 4" "z 24"] zadd [of 4 24] by (simp add: p5_def l4)
  have s6: "setUint16 (p5 @ z 24) 20 1 True = Inr (p6 @ z 22)"
    using setUint16_mid [of p5 20 "z 2" "z 22"] zadd [of 2 22] by (simp add: p6_def l5)
  have s7: "setUint16 (p6 @ z 22) 22 (of_int nc) True = Inr (p7 @ z 20)"
    using setUint16_mid [of p6 22 "z 2" "z 20"] zadd [of 2 20] by (simp add: p7_def l6)
  have s8: "setUint32 (p7 @ z 20) 24 (of_int sr) True = Inr (p8 @ z 16)"
    using setUint32_mid [of p7 24 "z 4" "z 16"] zadd [of 4 16] by (simp add: p8_def l7)
  have s9: "setUint32 (p8 @ z 16) 28 (of_int sr * ba) True = Inr (p9 @ z 12)"
    using setUint32_mid [of p8 28 "z 4" "z 12"] zadd [of 4 12] by (simp add: p9_def l8)
  have s10: "setUint16 (p9 @ z 12) 32 ba True = Inr (p10 @ z 10)"
    using setUint16_mid [of p9 32 "z 2" "z 10"] zadd [of 2 10] by (simp add: p10_def l9)
  have s11: "setUint16 (p10 @ z 10) 34 (of_int bps) True = Inr (p11 @ z 8)"
    using setUint16_mid [of p10 34 "z 2" "z 8"] zadd [of 2 8] by (simp add: p11_def l10)
  have s12: "writeString (p11 @ z 8) 36 ''data'' = Inr (p12 @ z 4)"
    using writeString_mid [of p11 36 "z 4" "''data''" "z 4"] zadd [of 4 4]
    by (simp add: p12_def l11)
  have s13: "setUint32 (p12 @ z 4) 40 (of_nat L) True = Inr p13"
    using setUint32_mid [of p12 40 "z 4" "[]"] by (simp add: p13_def l12)
  have s14: "typed_set (z (44 + L)) p13 0 = Inr (p13 @ z L)"
    using typed_set_mid [of "[]" 0 "z 44" p13 "z L"] zadd [of 44 L] by (simp add: l13)
  have s15: "typed_set (p13 @ z L) pcm 44 = Inr (p13 @ pcm)"
    using typed_set_mid [of p13 44 "z L" pcm "[]"] by (simp add: l13 L_def)
  have hdr: "wav_header L sr nc bps = p13"
    by (simp add: wav_header_def p13_def p12_def p11_def p10_def p9_def p8_def p7_def
        p6_def p5_def p4_def p3_def p2_def p1_def ba_def)
  have "pcmToWav pcm sr nc bps = Inr (p13 @ pcm)"
    unfolding pcmToWav_def Let_def
    unfolding z_def [symmetric] L_def [symmetric] ba_def [symmetric]
    by (simp only: s1 s2 s3 s4 s5 s6 s7 s8 s9 s10 s11 s12 s13 s14 s15 bind_err_def sum.case)
  then show ?thesis unfolding hdr [symmetric] L_def .
qed

lemma js_trunc_div8: "0 \<le> k \<Longrightarrow> js_trunc (of_int k / 8) = k div 8"
proof -
  assume k: "0 \<le> k"
  have "\<lfloor>(of_int k :: rat) / of_int 8\<rfloor> = k div 8" by (rule floor_divide_of_int_eq)
  moreover have "\<not> (of_int k :: rat) / 8 < 0" using k by simp
  ultimately show ?thesis by (simp add: js_trunc_def)
qed

lemma unat_to_uint32: "0 \<le> k \<Longrightarrow> k < 2 ^ 32 \<Longrightarrow> js_trunc x = k \<Longrightarrow> unat (to_uint32 x) = nat k"
  by (simp add: to_uint32_def unsigned_of_int take_bit_eq_mod)

lemma unat_to_uint16: "0 \<le> k \<Longrightarrow> k < 2 ^ 16 \<Longrightarrow> js_trunc x = k \<Longrightarrow> unat (to_uint16 x) = nat k"
  by (simp add: to_uint16_def unsigned_of_int take_bit_eq_mod)

lemma wav_header_fields:
  fixes L sr nc bps
  defines "h \<equiv> wav_header L sr nc bps"
  shows "bytes_at h 0 4 = ascii ''RIFF''"
    and "bytes_at h 4 4 = le32 (to_uint32 (36 + of_nat L))"
    and "bytes_at h 8 4 = ascii ''WAVE''"
    and "bytes_at h 12 4 = ascii ''fmt ''"
    and "bytes_at h 16 4 = le32 (to_uint32 16)"
    and "bytes_at h 20 2 = le16 (to_uint16 1)"
    and "bytes_at h 22 2 = le16 (to_uint16 (of_int nc))"
    and "bytes_at h 24 4 = le32 (to_uint32 (of_int sr))"
    and "bytes_at h 28 4 = le32 (to_uint32 (of_int sr * (of_int nc * of_int bps / 8)))"
    and "bytes_at h 32 2 = le16 (to_uint16 (of_int nc * of_int bps / 8))"
    and "bytes_at h 34 2 = le16 (to_uint16 (of_int bps))"
    and "bytes_at h 36 4 = ascii ''data''"
    and "bytes_at h 40 4 = le32 (to_uint32 (of_nat L))"
  unfolding h_def by (simp_all add: bytes_at_def wav_header_def)

lemma bytes_at_header:
  "off + n \<le> 44 \<Longrightarrow> bytes_at (wav_header L sr nc bps @ pcm) off n = bytes_at (wav_header L sr nc bps) off n"
  by (simp add: bytes_at_def length_wav_header)

text \<open>
  C1 (encoder layout). For PCM bytes of length \<open>L\<close> and non-negative integer parameters
  that fit their header fields (\<open>36 + L\<close>, \<open>sampleRate\<close> and the byte rate below
  \<open>2^32\<close>; \<open>numChannels\<close>, \<open>bitsPerSample\<close> and the block alignment below \<open>2^16\<close>),
  \<open>pcmToWav\<close> returns \<open>44 + L\<close> bytes: the literals \<open>RIFF\<close>, \<open>WAVE\<close>, \<open>fmt \<close>, \<open>data\<close> at
  offsets 0, 8, 12, 36; the little-endian values \<open>36 + L\<close>, 16, 1, \<open>numChannels\<close>,
  \<open>sampleRate\<close>, the byte rate \<open>sampleRate * numChannels * bitsPerSample / 8\<close> and the block
  alignment \<open>numChannels * bitsPerSample / 8\<close> (both rounded down), \<open>bitsPerSample\<close> and \<open>L\<close>
  at offsets 4, 16, 20, 22, 24, 28, 32, 34, 40; and the PCM bytes from offset 44 on.
\<close>

theorem pcmToWav_layout:
  assumes "0 \<le> sampleRate" and "sampleRate < 2 ^ 32"
    and "0 \<le> numChannels" and "numChannels < 2 ^ 16"
    and "0 \<le> bitsPerSample" and "bitsPerSample < 2 ^ 16"
    and "numChannels * bitsPerSample div 8 < 2 ^ 16"
    and "sampleRate * numChannels * bitsPerSample div 8 < 2 ^ 32"
    and "36 + length pcmBytes < 2 ^ 32"
  shows "\<exists>wav. pcmToWav pcmBytes sampleRate numChannels bitsPerSample = Inr wav
     \<and> length wav = 44 + length pcmBytes
     \<and> bytes_at wav 0 4 = ascii ''RIFF''
     \<and> le_value (bytes_at wav 4 4) = 36 + length pcmBytes
     \<and> bytes_at wav 8 4 = ascii ''WAVE''
     \<and> bytes_at wav 12 4 = ascii ''fmt ''
     \<and> le_value (bytes_at wav 16 4) = 16
     \<and> le_value (bytes_at wav 20 2) = 1
     \<and> int (le_value (bytes_at wav 22 2)) = numChannels
     \<and> int (le_value (bytes_at wav 24 4)) = sampleRate
     \<and> int (le_value (bytes_at wav 28 4)) = sampleRate * numChannels * bitsPerSample div 8
     \<and> int (le_value (bytes_at wav 32 2)) = numChannels * bitsPerSample div 8
     \<and> int (le_value (bytes_at wav 34 2)) = bitsPerSample
     \<and> bytes_at wav 36 4 = ascii ''data''
     \<and> le_value (bytes_at wav 40 4) = length pcmBytes
     \<and> drop 44 wav = pcmBytes"
proof -
  let ?L = "length pcmBytes"
  let ?h = "wav_header ?L sampleRate numChannels bitsPerSample"
  let ?wav = "?h @ pcmBytes"
  note f = wav_header_fields [of ?L sampleRate numChannels bitsPerSample]
  have wav: "pcmToWav pcmBytes sampleRate numChannels bitsPerSample = Inr ?wav"
    by (rule pcmToWav_header)
  have len: "length ?wav = 44 + ?L" by (simp add: length_wav_header)
  have body: "drop 44 ?wav = pcmBytes" by (simp add: length_wav_header)
  have t1: "js_trunc (36 + of_nat ?L) = int (36 + ?L)"
    using js_trunc_of_nat [of "36 + ?L"] by simp
  have v4: "le_value (bytes_at ?wav 4 4) = 36 + ?L"
    using unat_to_uint32 [OF _ _ t1] assms(9)
    by (simp add: bytes_at_header f le_value_le32)
  have t16: "js_trunc 16 = 16" using js_trunc_of_int [of 16] by simp
  have v16: "le_value (bytes_at ?wav 16 4) = 16"
    using unat_to_uint32 [OF _ _ t16] by (simp add: bytes_at_header f le_value_le32)
  have t20: "js_trunc 1 = 1" using js_trunc_of_int [of 1] by simp
  have v20: "le_value (bytes_at ?wav 20 2) = 1"
    using unat_to_uint16 [OF _ _ t20] by (simp add: bytes_at_header f le_value_le16)
  have v22: "int (le_value (bytes_at ?wav 22 2)) = numChannels"
    using unat_to_uint16 [OF assms(3,4) js_trunc_of_int] assms(3)
    by (simp add: bytes_at_header f le_value_le16)
  have v24: "int (le_value (bytes_at ?wav 24 4)) = sampleRate"
    using unat_to_uint32 [OF assms(1,2) js_trunc_of_int] assms(1)
    by (simp add: bytes_at_header f le_value_le32)
  have nn: "0 \<le> numChannels * bitsPerSample" using assms(3,5) by simp
  have nnn: "0 \<le> sampleRate * numChannels * bitsPerSample" using assms(1,3,5) by simp
  have t28: "js_trunc (of_int sampleRate * (of_int numChannels * of_int bitsPerSample / 8))
      = sampleRate * numChannels * bitsPerSample div 8"
    using js_trunc_div8 [OF nnn] by (simp add: mult.assoc)
  have v28: "int (le_value (bytes_at ?wav 28 4)) = sampleRate * numChannels * bitsPerSample div 8"
    using unat_to_uint32 [OF _ assms(8) t28] nnn
    by (simp add: bytes_at_header f le_value_le32 pos_imp_zdiv_nonneg_iff)
  have t32: "js_trunc (of_int numChannels * of_int bitsPerSample / 8)
      = numChannels * bitsPerSample div 8"
    using js_trunc_div8 [OF nn] by simp
  have v32: "int (le_value (bytes_at ?wav 32 2)) = numChannels * bitsPerSample div 8"
    using unat_to_uint16 [OF _ assms(7) t32] nn
    by (simp add: bytes_at_header f le_value_le16 pos_imp_zdiv_nonneg_iff)
  have v34: "int (le_value (bytes_at ?wav 34 2)) = bitsPerSample"
    using unat_to_uint16 [OF assms(5,6) js_trunc_of_int] assms(5)
    by (simp add: bytes_at_header f le_value_le16)
  have v40: "le_value (bytes_at ?wav 40 4) = ?L"
    using unat_to_uint32 [OF _ _ js_trunc_of_nat, of ?L] assms(9)
    by (simp add: bytes_at_header f le_value_le32)
  have lits: "bytes_at ?wav 0 4 = ascii ''RIFF''" "bytes_at ?wav 8 4 = ascii ''WAVE''"
    "bytes_at ?wav 12 4 = ascii ''fmt ''" "bytes_at ?wav 36 4 = ascii ''data''"
    by (simp_all add: bytes_at_header f)
  show ?thesis
    unfolding wav
    using len body v4 v16 v20 v22 v24 v28 v32 v34 v40 lits by blast 
qed

theorem pcmToWav_layout_witness:
  "36 + length [1, 2, 3 :: byte] < 2 ^ 32
   \<and> (\<exists>wav. pcmToWav [1, 2, 3] 24000 1 16 = Inr wav
     \<and> length wav = 44 + length [1, 2, 3 :: byte]
     \<and> bytes_at wav 0 4 = ascii ''RIFF''
     \<and> le_value (bytes_at wav 4 4) = 36 + length [1, 2, 3 :: byte]
     \<and> bytes_at wav 8 4 = ascii ''WAVE''
     \<and> bytes_at wav 12 4 = ascii ''fmt ''
     \<and> le_value (bytes_at wav 16 4) = 16
     \<and> le_value (bytes_at wav 20 2) = 1
     \<and> int (le_value (bytes_at wav 22 2)) = 1
     \<and> int (le_value (bytes_at wav 24 4)) = 24000
     \<and> int (le_value (bytes_at wav 28 4)) = 24000 * 1 * 16 div 8
     \<and> int (le_value (bytes_at wav 32 2)) = 1 * 16 div 8
     \<and> int (le_value (bytes_at wav 34 2)) = 16
     \<and> bytes_at wav 36 4 = ascii ''data''
     \<and> le_value (bytes_at wav 40 4) = length [1, 2, 3 :: byte]
     \<and> drop 44 wav = [1, 2, 3])"
proof (rule conjI)
  show "36 + length [1, 2, 3 :: byte] < 2 ^ 32" by simp
next
  show "\<exists>wav. pcmToWav [1, 2, 3] 24000 1 16 = Inr wav
     \<and> length wav = 44 + length [1, 2, 3 :: byte]
     \<and> bytes_at wav 0 4 = ascii ''RIFF''
     \<and> le_value (bytes_at wav 4 4) = 36 + length [1, 2, 3 :: byte]
     \<and> bytes_at wav 8 4 = ascii ''WAVE''
     \<and> bytes_at wav 12 4 = ascii ''fmt ''
     \<and> le_value (bytes_at wav 16 4) = 16
     \<and> le_value (bytes_at wav 20 2) = 1
     \<and> int (le_value (bytes_at wav 22 2)) = 1
     \<and> int (le_value (bytes_at wav 24 4)) = 24000
     \<and> int (le_value (bytes_at wav 28 4)) = 24000 * 1 * 16 div 8
     \<and> int (le_value (bytes_at wav 32 2)) = 1 * 16 div 8
     \<and> int (le_value (bytes_at wav 34 2)) = 16
     \<and> bytes_at wav 36 4 = ascii ''data''
     \<and> le_value (bytes_at wav 40 4) = length [1, 2, 3 :: byte]
     \<and> drop 44 wav = [1, 2, 3]"
    by (rule pcmToWav_layout) simp_all
qed

lemma wav_header_65536_channels:
  "wav_header 0 24000 65536 16 =
     [82, 73, 70, 70, 36, 0, 0, 0, 87, 65, 86, 69, 102, 109, 116, 32, 16, 0, 0, 0,
      1, 0, 0, 0, 192, 93, 0, 0, 0, 0, 128, 187, 0, 0, 16, 0, 100, 97, 116, 97,
      0, 0, 0, 0]"
  by (simp add: wav_header_def le32_def le16_def to_uint32_def to_uint16_def js_trunc_def
      ascii_def)

text \<open>
  A value that does not fit its field is stored modulo the field's width: with 65536
  channels, bytes 22-23 (and the block alignment in bytes 32-33) hold 0.
\<close>

theorem pcmToWav_field_wraps:
  "pcmToWav [] 24000 65536 16 =
     Inr [82, 73, 70, 70, 36, 0, 0, 0, 87, 65, 86, 69, 102, 109, 116, 32, 16, 0, 0, 0,
          1, 0, 0, 0, 192, 93, 0, 0, 0, 0, 128, 187, 0, 0, 16, 0, 100, 97, 116, 97,
          0, 0, 0, 0]
   \<and> le_value (bytes_at [82, 73, 70, 70, 36, 0, 0, 0, 87, 65, 86, 69, 102, 109, 116, 32,
          16, 0, 0, 0, 1, 0, 0, 0, 192, 93, 0, 0, 0, 0, 128, 187, 0, 0, 16, 0,
          100, 97, 116, 97, 0, 0, 0, 0] 22 2) \<noteq> 65536"
  using pcmToWav_header [of "[]" 24000 65536 16]
  by (simp add: wav_header_65536_channels bytes_at_def)

section \<open>Properties of the shuffle\<close>

lemma length_swap_elems [simp]: "length (swap_elems xs i j) = length xs"
  by (simp add: swap_elems_def Let_def)

lemma mset_swap_elems:
  "i < length xs \<Longrightarrow> j < length xs \<Longrightarrow> mset (swap_elems xs i j) = mset xs"
  by (simp add: swap_elems_def Let_def mset_swap)

lemma random_index_le:
  assumes "0 \<le> r" and "r < 1"
  shows "nat \<lfloor>r * of_nat (Suc i)\<rfloor> \<le> i"
proof -
  have "r * of_nat (Suc i) < of_nat (Suc i)"
    using assms by (simp del: of_nat_Suc)
  then have "\<lfloor>r * of_nat (Suc i)\<rfloor> < int (Suc i)"
    by (simp add: floor_less_iff del: of_nat_Suc)
  then show ?thesis by simp
qed

lemma shuffle_loop_invariant:
  assumes "unit_interval rnd" and "b < length st" and "n \<le> length (st ! b) - 1"
  shows "length (shuffle_loop rnd k b n st) = length st
       \<and> (\<forall>a. a \<noteq> b \<longrightarrow> shuffle_loop rnd k b n st ! a = st ! a)
       \<and> length (shuffle_loop rnd k b n st ! b) = length (st ! b)
       \<and> mset (shuffle_loop rnd k b n st ! b) = mset (st ! b)"
  using assms(2,3)
proof (induction n arbitrary: k st)
  case 0
  then show ?case by simp
next
  case (Suc n)
  define j where "j = nat \<lfloor>rnd k * of_nat (Suc n + 1)\<rfloor>"
  define arr where "arr = swap_elems (st ! b) (Suc n) j"
  define st' where "st' = st[b := arr]"
  have r: "0 \<le> rnd k" "rnd k < 1" using assms(1) by (simp_all add: unit_interval_def)
  have i: "Suc n < length (st ! b)" using Suc.prems by simp
  have "j \<le> Suc n" using random_index_le [OF r, of "Suc n"] by (simp add: j_def)
  then have j: "j < length (st ! b)" using i by simp
  have b: "b < length st'" using Suc.prems by (simp add: st'_def)
  have stb: "st' ! b = arr" using Suc.prems by (simp add: st'_def)
  have other: "a \<noteq> b \<Longrightarrow> st' ! a = st ! a" for a by (simp add: st'_def)
  have len: "length arr = length (st ! b)" by (simp add: arr_def)
  have ms: "mset arr = mset (st ! b)" unfolding arr_def by (rule mset_swap_elems [OF i j])
  have n: "n \<le> length (st' ! b) - 1" using Suc.prems by (simp add: stb len)
  note IH = Suc.IH [OF b n, of "Suc k"]
  have step: "shuffle_loop rnd k b (Suc n) st = shuffle_loop rnd (Suc k) b n st'"
    by (simp add: Let_def st'_def arr_def j_def)
  have lst: "length st' = length st" by (simp add: st'_def)
  show ?case
    unfolding step using IH by (simp add: stb len ms other lst)
qed

text \<open>
  C9 (shuffle). With \<open>Math.random\<close> returning numbers in \<open>[0, 1)\<close>, \<open>shuffleArray\<close> returns a
  new array (an address no existing array has) of the same length and with the same
  multiset of elements as its argument, and every array that existed before the call,
  the argument among them, is unchanged.
\<close>

theorem shuffleArray_permutation:
  assumes "unit_interval rnd" and "array < length st"
  shows "snd (shuffleArray rnd st array) \<noteq> array
     \<and> length st \<le> snd (shuffleArray rnd st array)
     \<and> length (fst (shuffleArray rnd st array) ! snd (shuffleArray rnd st array)) = length (st ! array)
     \<and> mset (fst (shuffleArray rnd st array) ! snd (shuffleArray rnd st array)) = mset (st ! array)
     \<and> (\<forall>a < length st. fst (shuffleArray rnd st array) ! a = st ! a)"
proof -
  let ?b = "length st"
  let ?st1 = "st @ [st ! array]"
  have b: "?b < length ?st1" by simp
  have n: "length (?st1 ! ?b) - 1 \<le> length (?st1 ! ?b) - 1" by simp
  note inv = shuffle_loop_invariant [OF assms(1) b n, of 0]
  have res: "shuffleArray rnd st array
      = (shuffle_loop rnd 0 ?b (length (?st1 ! ?b) - 1) ?st1, ?b)"
    by (simp add: shuffleArray_def Let_def)
  have old: "a < length st \<Longrightarrow> ?st1 ! a = st ! a" for a by (simp add: nth_append)
  show ?thesis
    unfolding res using inv assms(2) by (auto simp: nth_append)
qed

theorem shuffleArray_permutation_witness:
  "unit_interval (\<lambda>k. 1 / 2) \<and> (0::nat) < length [[1, 2, 3, 4, 5 :: nat]]
   \<and> snd (shuffleArray (\<lambda>k. 1 / 2) [[1, 2, 3, 4, 5 :: nat]] 0) \<noteq> 0
   \<and> mset (fst (shuffleArray (\<lambda>k. 1 / 2) [[1, 2, 3, 4, 5 :: nat]] 0)
             ! snd (shuffleArray (\<lambda>k. 1 / 2) [[1, 2, 3, 4, 5 :: nat]] 0))
       = mset ([[1, 2, 3, 4, 5 :: nat]] ! 0)
   \<and> fst (shuffleArray (\<lambda>k. 1 / 2) [[1, 2, 3, 4, 5 :: nat]] 0) ! 0 = [1, 2, 3, 4, 5]"
proof -
  have u: "unit_interval (\<lambda>k. 1 / 2)" by (simp add: unit_interval_def)
  have a: "(0::nat) < length [[1, 2, 3, 4, 5 :: nat]]" by simp
  show ?thesis using u a shuffleArray_permutation [OF u a] by simp
qed

section \<open>Properties of the string operations\<close>

lemma str_append: "str (a @ b) = str a @ str b"
  by (simp add: str_def)







text \<open>trim removes white space at both ends and nothing else.\<close>

lemma trim_decompose:
  "\<exists>pre post. s = pre @ trim s @ post \<and> (\<forall>c \<in> set pre. is_white_space c)
      \<and> (\<forall>c \<in> set post. is_white_space c)
      \<and> (trim s \<noteq> [] \<longrightarrow> \<not> is_white_space (hd (trim s)) \<and> \<not> is_white_space (last (trim s)))"
proof -
  define pre where "pre = takeWhile is_white_space s"
  define mid where "mid = dropWhile is_white_space s"
  define post where "post = rev (takeWhile is_white_space (rev mid))"
  have s: "s = pre @ mid" by (simp add: pre_def mid_def)
  have t: "trim s = rev (dropWhile is_white_space (rev mid))" by (simp add: trim_def mid_def)
  have "rev (dropWhile is_white_space (rev mid)) @ rev (takeWhile is_white_space (rev mid))
      = rev (takeWhile is_white_space (rev mid) @ dropWhile is_white_space (rev mid))"
    by (simp only: rev_append)
  also have "\<dots> = mid" by (simp only: takeWhile_dropWhile_id rev_rev_ident)
  finally have m: "mid = trim s @ post" by (simp only: t post_def)
  have p1: "\<forall>c \<in> set pre. is_white_space c"
    by (auto simp: pre_def dest: set_takeWhileD)
  have p2: "\<forall>c \<in> set post. is_white_space c"
    by (auto simp: post_def dest: set_takeWhileD)
  have l: "trim s \<noteq> [] \<longrightarrow> \<not> is_white_space (last (trim s))"
    unfolding t by (simp add: last_rev hd_dropWhile)
  have h: "trim s \<noteq> [] \<longrightarrow> \<not> is_white_space (hd (trim s))"
  proof
    assume ne: "trim s \<noteq> []"
    then have "mid \<noteq> []" using m by auto
    then have "\<not> is_white_space (hd mid)" unfolding mid_def by (rule hd_dropWhile)
    moreover have "hd mid = hd (trim s)" using m ne by (metis hd_append2)
    ultimately show "\<not> is_white_space (hd (trim s))" by simp
  qed
  show ?thesis using s m p1 p2 l h by (intro exI [of _ pre] exI [of _ post]) simp
qed




section \<open>Properties of lesson generation and of the exercise\<close>

lemma validate_lesson_Inr:
  "targetWords parsed = Some ws \<Longrightarrow> ws \<noteq> [] \<Longrightarrow> validate_lesson parsed = Inr parsed"
  by (simp add: validate_lesson_def)

lemma validate_lesson_Inl:
  "targetWords parsed = None \<or> targetWords parsed = Some [] \<Longrightarrow>
   validate_lesson parsed = Inl (str ''API returned invalid lesson data (missing target words).'')"
  by (auto simp: validate_lesson_def)

lemmas generate_defs = generateLesson_def Let_def generate_finally_def generate_catch_def

lemma presenting_fields:
  "lesson presenting_state = Some bread_lesson"
  "showResults presenting_state = False"
  "userAnswers presenting_state = [Val []]"
  "nextTopicCooldown presenting_state = 0"
  "isAudioLoading presenting_state = False"
  "isAudioPlaying presenting_state = False"
  "audioSourceRef presenting_state = None"
  "topic presenting_state = (str ''ordering food at a restaurant'')"
  "error presenting_state = None"
  by (simp_all add: presenting_state_def generate_defs bread_env_def bread_lesson_def
      validate_lesson_def words_of_def start_state_def initial_state_def or_default_def)

lemma empty_lesson_fields:
  "content_response (bread_env\<lparr>content_response := Inr (bread_lesson\<lparr>targetWords := Some []\<rparr>)\<rparr>)
     = Inr (bread_lesson\<lparr>targetWords := Some []\<rparr>)"
  "targetWords (bread_lesson\<lparr>targetWords := Some []\<rparr>) = Some []"
  by simp_all

text \<open>
  C2 (validation). For a parsed response, the check after \<open>JSON.parse\<close> throws exactly when
  \<open>targetWords\<close> is missing or empty; \<open>generateLesson\<close> then ends without a lesson and with the
  error message set. Any other response becomes the lesson, whatever the number of
  placeholders in its article.
\<close>

theorem generateLesson_validation:
  assumes "content_response env = Inr parsed"
  shows "(validate_lesson parsed = Inl (str ''API returned invalid lesson data (missing target words).''))
           = (targetWords parsed = None \<or> targetWords parsed = Some [])
     \<and> (lesson (generateLesson currentTopic env st) = None)
           = (targetWords parsed = None \<or> targetWords parsed = Some [])
     \<and> (targetWords parsed = None \<or> targetWords parsed = Some [] \<longrightarrow>
          error (generateLesson currentTopic env st) =
            Some ((str ''An error occurred: '') @ (str ''API returned invalid lesson data (missing target words).'')
                  @ (str ''. Please try again.'')))
     \<and> (\<not> (targetWords parsed = None \<or> targetWords parsed = Some []) \<longrightarrow>
          lesson (generateLesson currentTopic env st) = Some parsed)"
proof (cases "targetWords parsed = None \<or> targetWords parsed = Some []")
  case True
  note v = validate_lesson_Inl [OF True]
  have "lesson (generateLesson currentTopic env st) = None"
    using assms v by (simp add: generate_defs)
  moreover have "error (generateLesson currentTopic env st) =
      Some ((str ''An error occurred: '') @ (str ''API returned invalid lesson data (missing target words).'')
                  @ (str ''. Please try again.''))"
    using assms v by (simp add: generate_defs)
  ultimately show ?thesis using True v by simp
next
  case False
  then obtain ws where ws: "targetWords parsed = Some ws" "ws \<noteq> []" by auto
  note v = validate_lesson_Inr [OF ws]
  have "lesson (generateLesson currentTopic env st) = Some parsed"
    using assms v by (simp add: generate_defs split: sum.split)
  then show ?thesis using False v by auto
qed

theorem generateLesson_validation_witness:
  "content_response uneven_env = Inr uneven_lesson
   \<and> length (placeholders (article uneven_lesson)) = 2
   \<and> targetWords uneven_lesson = Some [(str ''bread'')]
   \<and> lesson (generateLesson (str ''food'') uneven_env start_state) = Some uneven_lesson
   \<and> lesson (generateLesson (str ''food'')
        (bread_env\<lparr>content_response := Inr (bread_lesson\<lparr>targetWords := Some []\<rparr>)\<rparr>) start_state)
       = None
   \<and> error (generateLesson (str ''food'')
        (bread_env\<lparr>content_response := Inr (bread_lesson\<lparr>targetWords := Some []\<rparr>)\<rparr>) start_state)
       = Some ((str ''An error occurred: '') @ (str ''API returned invalid lesson data (missing target words).'')
                  @ (str ''. Please try again.''))"
proof -
  have c: "content_response uneven_env = Inr uneven_lesson" by (simp add: uneven_env_def)
  have t: "targetWords uneven_lesson = Some [(str ''bread'')]" by (simp add: uneven_lesson_def)
  have p: "length (placeholders (article uneven_lesson)) = 2"
    by (simp add: uneven_lesson_def placeholders_def split_article_def match_marker_def
        match_braces_def match_word_def str_def)
  show ?thesis
    using c t p generateLesson_validation [OF c, of "(str ''food'')" start_state]
      generateLesson_validation [OF empty_lesson_fields(1), of "(str ''food'')" start_state]
    by simp
qed

text \<open>
  C3 (image failure). When the content step has produced a lesson and the image step
  fails, \<open>generateLesson\<close> sets the error message \<open>An error occurred: ... Please try again.\<close>,
  leaves the image absent, and keeps the lesson and the exercise state derived from it;
  loading ends and the cooldown starts at 5.
\<close>

theorem generateLesson_image_failure:
  assumes "content_response env = Inr parsed"
    and "targetWords parsed = Some ws" and "ws \<noteq> []"
    and "image_response env = Inl message"
  shows "error (generateLesson currentTopic env st)
           = Some ((str ''An error occurred: '') @ message @ (str ''. Please try again.''))
     \<and> lessonImage (generateLesson currentTopic env st) = None
     \<and> lesson (generateLesson currentTopic env st) = Some parsed
     \<and> userAnswers (generateLesson currentTopic env st) = replicate (length ws) (Val [])
     \<and> isCorrect (generateLesson currentTopic env st) = []
     \<and> shuffledWords (generateLesson currentTopic env st) = shuffled_copy (random env) ws
     \<and> showResults (generateLesson currentTopic env st) = False
     \<and> isLoading (generateLesson currentTopic env st) = False
     \<and> nextTopicCooldown (generateLesson currentTopic env st) = 5"
  using assms(1,2,4) validate_lesson_Inr [OF assms(2,3)]
  by (simp add: generate_defs words_of_def)

theorem generateLesson_image_failure_witness:
  "content_response no_image_env = Inr bread_lesson
   \<and> targetWords bread_lesson = Some [(str ''bread'')] \<and> [(str ''bread'')] \<noteq> []
   \<and> image_response no_image_env = Inl (str ''quota exceeded'')
   \<and> lessonImage (generateLesson (str ''food'') no_image_env start_state) = None
   \<and> lesson (generateLesson (str ''food'') no_image_env start_state) = Some bread_lesson
   \<and> userAnswers (generateLesson (str ''food'') no_image_env start_state) = [Val []]
   \<and> nextTopicCooldown (generateLesson (str ''food'') no_image_env start_state) = 5"
proof -
  have c: "content_response no_image_env = Inr bread_lesson" by (simp add: no_image_env_def)
  have t: "targetWords bread_lesson = Some [(str ''bread'')]" by (simp add: bread_lesson_def)
  have n: "[(str ''bread'')] \<noteq> []" by simp
  have i: "image_response no_image_env = Inl (str ''quota exceeded'')" by (simp add: no_image_env_def)
  show ?thesis
    using c t i generateLesson_image_failure [OF c t n i, of "(str ''food'')" start_state] by simp
qed

text \<open>
  The failure of the image step is not silent: the message is set and shown, next to
  the lesson that stays in place.
\<close>

theorem generateLesson_image_error_shown:
  "error (generateLesson (str ''food'') no_image_env start_state)
     = Some (str ''An error occurred: quota exceeded. Please try again.'')
   \<and> lesson (generateLesson (str ''food'') no_image_env start_state) = Some bread_lesson"
  by (simp add: generate_defs no_image_env_def bread_lesson_def validate_lesson_def words_of_def
      str_def)

lemma generateLesson_cooldown: "nextTopicCooldown (generateLesson t env st) = 5"
  by (simp add: generate_defs split: sum.split)

lemma generateLesson_issued:
  "\<exists>rest. issued (generateLesson t env st)
     = issued st @ GenerateContent
         (lessonPrompt (inherited_property env) (language st) t (difficulty st)) # rest"
  by (simp add: generate_defs split: sum.split)

lemma generateLesson_topic: "topic (generateLesson t env st) = topic st"
  by (simp add: generate_defs split: sum.split)

lemma handleNextTopic_cooldown: "nextTopicCooldown st > 0 \<Longrightarrow> handleNextTopic env st = st"
  by (simp add: handleNextTopic_def split: option.split)

lemma handleNextTopic_changes:
  assumes "handleNextTopic env st \<noteq> st"
  shows "nextTopicCooldown st = 0 \<and>
        (\<exists>l s. lesson st = Some l \<and> nextTopicSuggestion l = Some s \<and> s \<noteq> []
           \<and> handleNextTopic env st = generateLesson s env (st\<lparr>topic := s\<rparr>)
           \<and> topic (handleNextTopic env st) = s
           \<and> (\<exists>rest. issued (handleNextTopic env st)
                 = issued st @ GenerateContent
                     (lessonPrompt (inherited_property env) (language st) s (difficulty st)) # rest))"
proof -
  from assms obtain l s where l: "lesson st = Some l" and s: "nextTopicSuggestion l = Some s"
    and ne: "s \<noteq> []" and c: "nextTopicCooldown st = 0"
    by (auto simp: handleNextTopic_def split: option.splits if_splits)
  have h: "handleNextTopic env st = generateLesson s env (st\<lparr>topic := s\<rparr>)"
    using l s ne c by (simp add: handleNextTopic_def)
  have t: "topic (handleNextTopic env st) = s"
    unfolding h by (simp add: generateLesson_topic)
  have i: "\<exists>rest. issued (handleNextTopic env st)
                 = issued st @ GenerateContent
                     (lessonPrompt (inherited_property env) (language st) s (difficulty st)) # rest"
    unfolding h using generateLesson_issued [of s env "st\<lparr>topic := s\<rparr>"] by simp
  show ?thesis using l s ne c h t i by blast
qed

text \<open>
  C6 (next topic). \<open>handleNextTopic\<close> is called from one place, the button that the page
  shows only while a lesson is loaded and the results are revealed, and disables while
  the cooldown is positive. A click changes the state only when \<open>showResults\<close> holds and
  the cooldown is 0: the topic then becomes the lesson's suggestion and a content
  request for it is issued by a fresh run of \<open>generateLesson\<close>. While the cooldown is
  positive or \<open>showResults\<close> is false a click changes nothing (and with a positive
  cooldown the handler itself changes nothing). Every run of \<open>generateLesson\<close> ends with
  the cooldown at 5.
\<close>

theorem handleNextTopic_guard:
  "(click_next_topic env st \<noteq> st \<longrightarrow>
        showResults st \<and> nextTopicCooldown st = 0 \<and>
        (\<exists>l s. lesson st = Some l \<and> nextTopicSuggestion l = Some s \<and> s \<noteq> []
           \<and> click_next_topic env st = generateLesson s env (st\<lparr>topic := s\<rparr>)
           \<and> topic (click_next_topic env st) = s
           \<and> (\<exists>rest. issued (click_next_topic env st)
                 = issued st @ GenerateContent
                     (lessonPrompt (inherited_property env) (language st) s (difficulty st)) # rest)))
   \<and> (\<not> showResults st \<or> nextTopicCooldown st > 0 \<longrightarrow> click_next_topic env st = st)
   \<and> (nextTopicCooldown st > 0 \<longrightarrow> handleNextTopic env st = st)
   \<and> nextTopicCooldown (generateLesson currentTopic env st) = 5"
proof -
  have a: "click_next_topic env st \<noteq> st \<longrightarrow>
        showResults st \<and> nextTopicCooldown st = 0 \<and>
        (\<exists>l s. lesson st = Some l \<and> nextTopicSuggestion l = Some s \<and> s \<noteq> []
           \<and> click_next_topic env st = generateLesson s env (st\<lparr>topic := s\<rparr>)
           \<and> topic (click_next_topic env st) = s
           \<and> (\<exists>rest. issued (click_next_topic env st)
                 = issued st @ GenerateContent
                     (lessonPrompt (inherited_property env) (language st) s (difficulty st)) # rest))"
  proof
    assume d: "click_next_topic env st \<noteq> st"
    then have r: "next_topic_button_rendered st" "\<not> next_topic_button_disabled st"
      by (auto simp: click_next_topic_def split: if_splits)
    then have c: "click_next_topic env st = handleNextTopic env st"
      by (simp add: click_next_topic_def)
    have s: "showResults st" using r(1) by (simp add: next_topic_button_rendered_def)
    from d c have "handleNextTopic env st \<noteq> st" by simp
    from handleNextTopic_changes [OF this] s show "showResults st \<and> nextTopicCooldown st = 0 \<and>
        (\<exists>l s. lesson st = Some l \<and> nextTopicSuggestion l = Some s \<and> s \<noteq> []
           \<and> click_next_topic env st = generateLesson s env (st\<lparr>topic := s\<rparr>)
           \<and> topic (click_next_topic env st) = s
           \<and> (\<exists>rest. issued (click_next_topic env st)
                 = issued st @ GenerateContent
                     (lessonPrompt (inherited_property env) (language st) s (difficulty st)) # rest))"
      unfolding c by blast
  qed
  have b: "\<not> showResults st \<or> nextTopicCooldown st > 0 \<longrightarrow> click_next_topic env st = st"
    by (auto simp: click_next_topic_def next_topic_button_rendered_def
        next_topic_button_disabled_def)
  have c: "nextTopicCooldown st > 0 \<longrightarrow> handleNextTopic env st = st"
    by (simp add: handleNextTopic_cooldown)
  show ?thesis using a b c generateLesson_cooldown by blast
qed

theorem handleNextTopic_guard_witness:
  "showResults (presenting_state\<lparr>showResults := True\<rparr>)
   \<and> nextTopicCooldown (presenting_state\<lparr>showResults := True\<rparr>) = 0
   \<and> click_next_topic bread_env (presenting_state\<lparr>showResults := True\<rparr>)
       \<noteq> presenting_state\<lparr>showResults := True\<rparr>
   \<and> topic (click_next_topic bread_env (presenting_state\<lparr>showResults := True\<rparr>)) = str ''drinks''
   \<and> \<not> showResults presenting_state
   \<and> click_next_topic bread_env presenting_state = presenting_state
   \<and> nextTopicCooldown (presenting_state\<lparr>showResults := True, nextTopicCooldown := 3\<rparr>) > 0
   \<and> click_next_topic bread_env (presenting_state\<lparr>showResults := True, nextTopicCooldown := 3\<rparr>)
       = presenting_state\<lparr>showResults := True, nextTopicCooldown := 3\<rparr>
   \<and> handleNextTopic bread_env (presenting_state\<lparr>showResults := True, nextTopicCooldown := 3\<rparr>)
       = presenting_state\<lparr>showResults := True, nextTopicCooldown := 3\<rparr>
   \<and> nextTopicCooldown (generateLesson (str ''food'') bread_env start_state) = 5"
proof -
  let ?r = "presenting_state\<lparr>showResults := True\<rparr>"
  let ?w = "presenting_state\<lparr>showResults := True, nextTopicCooldown := 3\<rparr>"
  have s: "nextTopicSuggestion bread_lesson = Some (str ''drinks'')" by (simp add: bread_lesson_def)
  have l: "lesson ?r = Some bread_lesson" by (simp add: presenting_fields)
  have r0: "showResults ?r" "nextTopicCooldown ?r = 0" by (simp_all add: presenting_fields)
  have ne: "str ''drinks'' \<noteq> []" by (simp add: str_def)
  have h: "click_next_topic bread_env ?r
      = generateLesson (str ''drinks'') bread_env (?r\<lparr>topic := str ''drinks''\<rparr>)"
    using l s ne r0
    by (simp add: click_next_topic_def next_topic_button_rendered_def
        next_topic_button_disabled_def handleNextTopic_def)
  have "topic (click_next_topic bread_env ?r) = str ''drinks''"
    unfolding h by (simp add: generateLesson_topic)
  moreover have "topic ?r \<noteq> str ''drinks''" by (simp add: presenting_fields str_def)
  ultimately have d: "click_next_topic bread_env ?r \<noteq> ?r" by auto
  have "\<exists>l s. lesson ?r = Some l \<and> nextTopicSuggestion l = Some s
          \<and> topic (click_next_topic bread_env ?r) = s"
    using handleNextTopic_guard [of bread_env ?r "str ''food''", THEN conjunct1] d by blast
  then have c: "topic (click_next_topic bread_env ?r) = str ''drinks''" using l s by auto
  have p: "\<not> showResults presenting_state" by (simp add: presenting_fields)
  have b: "click_next_topic bread_env presenting_state = presenting_state"
    using handleNextTopic_guard [of bread_env presenting_state "str ''food''",
        THEN conjunct2, THEN conjunct1] p by blast
  have w0: "nextTopicCooldown ?w > 0" by simp
  have w1: "click_next_topic bread_env ?w = ?w"
    using handleNextTopic_guard [of bread_env ?w "str ''food''", THEN conjunct2, THEN conjunct1] w0
    by blast
  have w2: "handleNextTopic bread_env ?w = ?w"
    using handleNextTopic_guard [of bread_env ?w "str ''food''",
        THEN conjunct2, THEN conjunct2, THEN conjunct1] w0
    by blast
  have e: "nextTopicCooldown (generateLesson (str ''food'') bread_env start_state) = 5"
    using handleNextTopic_guard [of bread_env start_state "str ''food''"] by blast
  show ?thesis using r0 d c p b w0 w1 w2 e by blast
qed

text \<open>
  C10 (listen without a lesson). With no lesson loaded, \<open>handleListen\<close> returns at once:
  the state, the list of issued requests included, is unchanged.
\<close>

theorem handleListen_no_lesson:
  "lesson st = None \<Longrightarrow> handleListen textToListen env st = st"
  by (simp add: handleListen_def)

theorem handleListen_no_lesson_witness:
  "lesson start_state = None \<and> handleListen (str ''hola'') no_payload_env start_state = start_state"
proof -
  have l: "lesson start_state = None" by (simp add: start_state_def initial_state_def)
  show ?thesis using l handleListen_no_lesson [OF l, of "(str ''hola'')" no_payload_env] by simp
qed

lemma listen_try_failed_playing:
  "listen_try t l env st = (st2, Some message) \<Longrightarrow> isAudioPlaying st2 = isAudioPlaying st"
  by (auto simp: listen_try_def Let_def split: sum.splits option.splits if_splits)

lemma listen_fails_flags:
  "listen_fails env (st\<lparr>isAudioLoading := a, error := e\<rparr>) = listen_fails env st"
  by (simp add: listen_fails_def cong: sum.case_cong option.case_cong)

lemma listen_try_fails_iff:
  "snd (listen_try t l env st) \<noteq> None \<longleftrightarrow> listen_fails env st"
  by (auto simp: listen_try_def listen_fails_def Let_def split: sum.splits option.splits)

text \<open>
  C7 (listen failure). A run of \<open>handleListen\<close> that passes the guard and in which a step
  throws ends with the error message \<open>Failed to play audio: ...\<close> set, \<open>isAudioLoading\<close>
  false and \<open>isAudioPlaying\<close> false.
\<close>

theorem handleListen_failure:
  assumes "\<not> isAudioLoading st" and "\<not> isAudioPlaying st" and "lesson st = Some l"
    and "listen_fails env st"
  shows "(\<exists>message. error (handleListen textToListen env st) = Some ((str ''Failed to play audio: '') @ message))
     \<and> isAudioLoading (handleListen textToListen env st) = False
     \<and> isAudioPlaying (handleListen textToListen env st) = False"
proof -
  let ?st1 = "st\<lparr>isAudioLoading := True, error := None\<rparr>"
  have f: "listen_fails env ?st1" using assms(4) by (simp only: listen_fails_flags)
  obtain st2 r where tr: "listen_try textToListen l env ?st1 = (st2, r)"
    by (cases "listen_try textToListen l env ?st1")
  from f have "snd (listen_try textToListen l env ?st1) \<noteq> None"
    by (simp only: listen_try_fails_iff)
  then obtain message where r: "r = Some message" using tr by auto
  have "listen_try textToListen l env ?st1 = (st2, Some message)" using tr r by simp
  then have "isAudioPlaying st2 = isAudioPlaying ?st1" by (rule listen_try_failed_playing)
  then have p: "\<not> isAudioPlaying st2" using assms(2) by simp
  have res: "handleListen textToListen env st
      = st2\<lparr>error := Some ((str ''Failed to play audio: '') @ message), isAudioLoading := False\<rparr>"
    using assms(1,2,3) tr r by (simp add: handleListen_def Let_def)
  show ?thesis unfolding res using p by simp
qed

lemma no_payload_fails: "listen_fails no_payload_env presenting_state"
  by (simp add: listen_fails_def no_payload_env_def)

theorem handleListen_failure_witness:
  "\<not> isAudioLoading presenting_state \<and> \<not> isAudioPlaying presenting_state
   \<and> lesson presenting_state = Some bread_lesson
   \<and> listen_fails no_payload_env presenting_state
   \<and> (\<exists>message. error (handleListen (str ''bread'') no_payload_env presenting_state)
          = Some ((str ''Failed to play audio: '') @ message))
   \<and> isAudioLoading (handleListen (str ''bread'') no_payload_env presenting_state) = False
   \<and> isAudioPlaying (handleListen (str ''bread'') no_payload_env presenting_state) = False"
proof -
  have a: "\<not> isAudioLoading presenting_state" "\<not> isAudioPlaying presenting_state"
    "lesson presenting_state = Some bread_lesson"
    by (simp_all add: presenting_fields)
  show ?thesis
    using a no_payload_fails
      handleListen_failure [OF a no_payload_fails, of "(str ''bread'')"] by blast
qed

lemma js_get_spread: "js_get (spread xs) k = js_get xs k"
  by (simp add: js_get_def spread_def split: slot.split)

lemma length_spread [simp]: "length (spread xs) = length xs"
  by (simp add: spread_def)

lemma js_get_js_set_same: "js_get (js_set xs i v) i = Some v"
  by (simp add: js_get_def js_set_def nth_append)

lemma js_get_js_set_other: "k \<noteq> i \<Longrightarrow> js_get (js_set xs i v) k = js_get xs k"
  by (auto simp: js_get_def js_set_def nth_append nth_Cons' split: slot.split)

text \<open>
  C8 (set answer). \<open>handleAnswerChange\<close> changes nothing when \<open>showResults\<close> holds;
  otherwise \<open>userAnswers[index]\<close> becomes the value, every other element of \<open>userAnswers\<close>
  reads as before, and no other part of the state changes.
\<close>

theorem handleAnswerChange_frame:
  "(showResults st \<longrightarrow> handleAnswerChange index v st = st)
   \<and> (\<not> showResults st \<longrightarrow>
        js_get (userAnswers (handleAnswerChange index v st)) index = Some v
        \<and> (\<forall>k. k \<noteq> index \<longrightarrow>
              js_get (userAnswers (handleAnswerChange index v st)) k = js_get (userAnswers st) k)
        \<and> (index < length (userAnswers st) \<longrightarrow>
              length (userAnswers (handleAnswerChange index v st)) = length (userAnswers st))
        \<and> isCorrect (handleAnswerChange index v st) = isCorrect st
        \<and> showResults (handleAnswerChange index v st) = showResults st
        \<and> shuffledWords (handleAnswerChange index v st) = shuffledWords st
        \<and> handleAnswerChange index v st
             = st\<lparr>userAnswers := userAnswers (handleAnswerChange index v st)\<rparr>)"
proof (cases "showResults st")
  case True
  then show ?thesis by (simp add: handleAnswerChange_def)
next
  case False
  have ua: "userAnswers (handleAnswerChange index v st) = js_set (spread (userAnswers st)) index v"
    using False by (simp add: handleAnswerChange_def)
  have a: "js_get (userAnswers (handleAnswerChange index v st)) index = Some v"
    unfolding ua by (rule js_get_js_set_same)
  have b: "\<forall>k. k \<noteq> index \<longrightarrow>
      js_get (userAnswers (handleAnswerChange index v st)) k = js_get (userAnswers st) k"
    unfolding ua by (simp add: js_get_js_set_other js_get_spread)
  have c: "index < length (userAnswers st) \<longrightarrow>
      length (userAnswers (handleAnswerChange index v st)) = length (userAnswers st)"
    unfolding ua by (simp add: js_set_def)
  have d: "isCorrect (handleAnswerChange index v st) = isCorrect st"
    "showResults (handleAnswerChange index v st) = showResults st"
    "shuffledWords (handleAnswerChange index v st) = shuffledWords st"
    "handleAnswerChange index v st = st\<lparr>userAnswers := userAnswers (handleAnswerChange index v st)\<rparr>"
    using False by (simp_all add: handleAnswerChange_def)
  show ?thesis using False a b c d by simp
qed

theorem handleAnswerChange_frame_witness:
  "\<not> showResults presenting_state
   \<and> js_get (userAnswers (handleAnswerChange 0 (str ''bread'') presenting_state)) 0 = Some (str ''bread'')
   \<and> isCorrect (handleAnswerChange 0 (str ''bread'') presenting_state) = isCorrect presenting_state
   \<and> showResults (presenting_state\<lparr>showResults := True\<rparr>)
   \<and> handleAnswerChange 0 (str ''bread'') (presenting_state\<lparr>showResults := True\<rparr>)
        = presenting_state\<lparr>showResults := True\<rparr>"
proof -
  have a: "\<not> showResults presenting_state" by (simp add: presenting_fields)
  have b: "showResults (presenting_state\<lparr>showResults := True\<rparr>)" by simp
  show ?thesis
    using a b handleAnswerChange_frame [of presenting_state 0 "(str ''bread'')"]
      handleAnswerChange_frame [of "presenting_state\<lparr>showResults := True\<rparr>" 0 "(str ''bread'')"]
    by blast
qed










section \<open>Properties of the article rendering\<close>












lemma length_split_from_odd: "odd (length (split_from acc s))"
proof (induction acc s rule: split_from.induct)
  case (1 acc)
  then show ?case by simp
next
  case (2 acc c cs)
  then show ?case by (cases "match_marker (c # cs)") simp_all
qed


lemmas split_defs = split_article_def match_marker_def match_braces_def match_word_def












text \<open>
  A text that begins with \<open>{{\<close> and ends with \<open>}}\<close> without being a marker span passes the
  test of the renderer as well and is a placeholder of the page: in \<open>{{}}{{word}}\<close> the
  pattern matches \<open>{{word}}\<close> only, and both parts are rendered as inputs, at indices 0
  and 1.
\<close>

lemma renderArticle_stray_braces:
  "placeholders (str ''{{}}{{word}}'') = [str ''{{word}}'']
   \<and> blank_positions (split_article (str ''{{}}{{word}}'')) = [0, 1]
   \<and> renderArticle (presenting_state\<lparr>lesson := Some (bread_lesson\<lparr>article := str ''{{}}{{word}}''\<rparr>)\<rparr>)
       = Some [Input 0 (str ''article-input '') [] 0 False 1,
               Input 1 (str ''article-input '') [] 1 False 2, Null]"
  by (simp add: placeholders_def split_defs renderArticle_def is_placeholder_def startsWith_def
      endsWith_def blank_class_def blank_value_def js_get_def presenting_fields str_def
      blank_positions_def)

end
